theory Spec2Isabelle
  imports Complex_Main "HOL-Library.Sublist"
begin

section \<open>JavaScript values used by the tracking code\<close>

text \<open>
  A JavaScript Number is either NaN, an infinity or a finite value. Finite values
  are carried by the type parameter: the string conversions (\<open>parseFloat\<close>,
  \<open>Number\<close>, \<open>toString\<close>) work on exact decimals \<open>m * 10 ^ e\<close>, the arithmetic of
  \<open>render\<close> on reals. The rounding of a decimal literal to the nearest IEEE double is
  not modelled, and \<open>-0\<close> is identified with \<open>0\<close> (both print as "0" and both are
  falsy, which is all the code observes).
\<close>

datatype 'a number = NaN | PosInfinity | NegInfinity | Fin 'a

type_synonym decimal = "int \<times> int"

fun strip10 :: "nat \<Rightarrow> int \<Rightarrow> nat \<times> int" where
  "strip10 m e = (if m = 0 then (0, 0)
                  else if m mod 10 = 0 then strip10 (m div 10) (e + 1)
                  else (m, e))"

declare strip10.simps [simp del]

definition mk_decimal :: "bool \<Rightarrow> nat \<Rightarrow> int \<Rightarrow> decimal" where
  "mk_decimal neg m e =
     (case strip10 m e of (m', e') \<Rightarrow> (if neg then - int m' else int m', e'))"

definition dec_val :: "decimal \<Rightarrow> real" where
  "dec_val d = (if 0 \<le> snd d then of_int (fst d) * 10 ^ nat (snd d)
                else of_int (fst d) / 10 ^ nat (- snd d))"

fun to_real :: "decimal number \<Rightarrow> real number" where
  "to_real NaN = NaN"
| "to_real PosInfinity = PosInfinity"
| "to_real NegInfinity = NegInfinity"
| "to_real (Fin d) = Fin (dec_val d)"

subsection \<open>Strings\<close>

definition startsWith :: "string \<Rightarrow> string \<Rightarrow> bool" where
  "startsWith s p = (take (length p) s = p)"

fun str_includes :: "string \<Rightarrow> string \<Rightarrow> bool" where
  "str_includes [] p = (p = [])"
| "str_includes (c # cs) p = (startsWith (c # cs) p \<or> str_includes cs p)"

text \<open>\<open>s.replace(p, "")\<close> with a string pattern removes the first occurrence of
  \<open>p\<close> only.\<close>

fun replace_first :: "string \<Rightarrow> string \<Rightarrow> string" where
  "replace_first [] p = []"
| "replace_first (c # cs) p =
     (if startsWith (c # cs) p then drop (length p) (c # cs)
      else c # replace_first cs p)"

definition isWhiteSpace :: "char \<Rightarrow> bool" where
  "isWhiteSpace c = (c \<in> set [CHR 0x09, CHR 0x0A, CHR 0x0B, CHR 0x0C, CHR 0x0D, CHR '' ''])"

definition trimStart :: "string \<Rightarrow> string" where
  "trimStart s = dropWhile isWhiteSpace s"

definition trim :: "string \<Rightarrow> string" where
  "trim s = rev (dropWhile isWhiteSpace (rev (dropWhile isWhiteSpace s)))"

subsection \<open>Numeric literals\<close>

fun index_of :: "'a \<Rightarrow> 'a list \<Rightarrow> nat" where
  "index_of x [] = 0"
| "index_of x (y # ys) = (if x = y then 0 else Suc (index_of x ys))"

definition isDigit :: "char \<Rightarrow> bool" where
  "isDigit c = (c \<in> set ''0123456789'')"

definition digit_val :: "char \<Rightarrow> nat" where
  "digit_val c = index_of c ''0123456789''"

definition digits_val :: "nat \<Rightarrow> string \<Rightarrow> nat" where
  "digits_val base ds = foldl (\<lambda>a c. base * a + digit_val c) 0 ds"

text \<open>ExponentPart: \<open>e\<close> or \<open>E\<close>, an optional sign and at least one digit. Returns
  the exponent and the rest of the string; an incomplete exponent is not consumed.\<close>

definition parse_exponent :: "string \<Rightarrow> int \<times> string" where
  "parse_exponent s =
     (case s of
        [] \<Rightarrow> (0, s)
      | c # r \<Rightarrow>
          if c = CHR ''e'' \<or> c = CHR ''E'' then
            (let neg = (r \<noteq> [] \<and> hd r = CHR ''-'');
                 r' = (if r \<noteq> [] \<and> (hd r = CHR ''-'' \<or> hd r = CHR ''+'') then tl r else r);
                 ds = takeWhile isDigit r'
             in if ds = [] then (0, s)
                else ((if neg then - int (digits_val 10 ds) else int (digits_val 10 ds)),
                      dropWhile isDigit r'))
          else (0, s))"

text \<open>The longest prefix that is a StrUnsignedDecimalLiteral, with its value, and
  the rest of the string; \<open>None\<close> when no prefix is one.\<close>

definition parse_unsigned :: "bool \<Rightarrow> string \<Rightarrow> (decimal number \<times> string) option" where
  "parse_unsigned neg s =
     (if startsWith s ''Infinity''
      then Some (if neg then NegInfinity else PosInfinity, drop 8 s)
      else
        let ip = takeWhile isDigit s;
            r1 = dropWhile isDigit s;
            dot = (r1 \<noteq> [] \<and> hd r1 = CHR ''.'');
            fp = (if dot then takeWhile isDigit (tl r1) else []);
            r2 = (if dot then dropWhile isDigit (tl r1) else r1)
        in if ip = [] \<and> fp = [] then None
           else (case parse_exponent r2 of (ex, r3) \<Rightarrow>
                   Some (Fin (mk_decimal neg (digits_val 10 (ip @ fp)) (ex - int (length fp))),
                         r3)))"

definition parse_StrDecimalLiteral :: "string \<Rightarrow> (decimal number \<times> string) option" where
  "parse_StrDecimalLiteral s =
     (case s of
        [] \<Rightarrow> None
      | c # r \<Rightarrow>
          if c = CHR ''-'' then parse_unsigned True r
          else if c = CHR ''+'' then parse_unsigned False r
          else parse_unsigned False s)"

definition parseFloat :: "string \<Rightarrow> decimal number" where
  "parseFloat s =
     (case parse_StrDecimalLiteral (trimStart s) of
        None \<Rightarrow> NaN
      | Some (v, r) \<Rightarrow> v)"

text \<open>NonDecimalIntegerLiteral: \<open>0x\<close>, \<open>0o\<close> or \<open>0b\<close> (either case) followed by at
  least one digit of the base, and nothing else.\<close>

definition hex_val :: "char \<Rightarrow> nat" where
  "hex_val c = (if c \<in> set ''ABCDEF'' then 10 + index_of c ''ABCDEF''
                else index_of c ''0123456789abcdef'')"

definition parse_NonDecimal :: "string \<Rightarrow> decimal number option" where
  "parse_NonDecimal s =
     (case s of
        z # p # ds \<Rightarrow>
          if z = CHR ''0'' \<and> ds \<noteq> [] then
            (if (p = CHR ''x'' \<or> p = CHR ''X'') \<and> list_all (\<lambda>c. c \<in> set ''0123456789abcdefABCDEF'') ds
             then Some (Fin (mk_decimal False (foldl (\<lambda>a c. 16 * a + hex_val c) 0 ds) 0))
             else if (p = CHR ''o'' \<or> p = CHR ''O'') \<and> list_all (\<lambda>c. c \<in> set ''01234567'') ds
             then Some (Fin (mk_decimal False (digits_val 8 ds) 0))
             else if (p = CHR ''b'' \<or> p = CHR ''B'') \<and> list_all (\<lambda>c. c \<in> set ''01'') ds
             then Some (Fin (mk_decimal False (digits_val 2 ds) 0))
             else None)
          else None
      | _ \<Rightarrow> None)"

text \<open>\<open>Number(s)\<close> on a string: the whole trimmed string must be a numeric literal;
  the empty string is 0.\<close>

definition Number :: "string \<Rightarrow> decimal number" where
  "Number s =
     (let t = trim s in
      if t = [] then Fin (0, 0)
      else case parse_NonDecimal t of
             Some v \<Rightarrow> v
           | None \<Rightarrow>
               (case parse_StrDecimalLiteral t of
                  None \<Rightarrow> NaN
                | Some (v, r) \<Rightarrow> if r = [] then v else NaN))"

definition isNaN :: "'a number \<Rightarrow> bool" where
  "isNaN v = (v = NaN)"

subsection \<open>Number to string\<close>

fun nat_digits :: "nat \<Rightarrow> string" where
  "nat_digits n = (if n < 10 then [''0123456789'' ! n]
                   else nat_digits (n div 10) @ [''0123456789'' ! (n mod 10)])"

declare nat_digits.simps [simp del]

text \<open>Number::toString for radix 10, with \<open>s\<close> the digits of the significand
  (no trailing zero), \<open>k\<close> their number and \<open>n\<close> the position of the decimal point.\<close>

definition pos_toString :: "nat \<Rightarrow> int \<Rightarrow> string" where
  "pos_toString m e =
     (let s = nat_digits m; k = int (length s); n = k + e in
      if k \<le> n \<and> n \<le> 21 then s @ replicate (nat (n - k)) CHR ''0''
      else if 0 < n \<and> n \<le> 21 then take (nat n) s @ ''.'' @ drop (nat n) s
      else if - 6 < n \<and> n \<le> 0 then ''0.'' @ replicate (nat (- n)) CHR ''0'' @ s
      else
        (let ex = (if 0 \<le> n - 1 then ''+'' else ''-'') @ nat_digits (nat \<bar>n - 1\<bar>) in
         if k = 1 then s @ ''e'' @ ex
         else take 1 s @ ''.'' @ drop 1 s @ ''e'' @ ex))"

fun toString :: "decimal number \<Rightarrow> string" where
  "toString NaN = ''NaN''"
| "toString PosInfinity = ''Infinity''"
| "toString NegInfinity = ''-Infinity''"
| "toString (Fin (m, e)) =
     (if m = 0 then ''0''
      else case strip10 (nat \<bar>m\<bar>) e of (m', e') \<Rightarrow>
             (if m < 0 then ''-'' else '''') @ pos_toString m' e')"

text \<open>Truthiness of a Number: NaN and zero are falsy.\<close>

fun truthy :: "decimal number \<Rightarrow> bool" where
  "truthy NaN = False"
| "truthy (Fin (m, e)) = (m \<noteq> 0)"
| "truthy _ = True"

section \<open>Configuration\<close>

text \<open>The \<open>config\<close> object of \<open>src/index.ts\<close>.\<close>

definition resolutionScale :: real where
  "resolutionScale = 0.5"

definition defaultBlurStrength :: "decimal number" where
  "defaultBlurStrength = Fin (1, 0)"


section \<open>The page: elements, tracked set and game view\<close>

text \<open>
  Elements are identified by a number (object identity in the source). Of an element
  the code reads and writes its class list (a DOMTokenList: an ordered list of tokens
  without repetition) and \<open>dataset.blurStrength\<close> (absent, or a string).
  \<open>document_elems\<close> lists the elements attached to the document in tree order and
  \<open>subtree e\<close> the descendants of \<open>e\<close>: they are what \<open>querySelectorAll\<close> ranges
  over. \<open>trackedElements\<close> is the JavaScript \<open>Set\<close>, kept in insertion order.
\<close>

type_synonym elem = nat

record element =
  classList :: "string list"
  blurStrength :: "string option"

record GameView =
  currentElements :: "elem list"
  currentResolutionScale :: real

record page =
  elements :: "elem \<Rightarrow> element"
  document_elems :: "elem list"
  subtree :: "elem \<Rightarrow> elem list"
  trackedElements :: "elem list"
  canvas :: bool
  gameView :: "GameView option"

text \<open>\<open>element.classList.add(token)\<close>.\<close>

definition classList_add :: "string list \<Rightarrow> string \<Rightarrow> string list" where
  "classList_add cl t = (if t \<in> set cl then cl else cl @ [t])"

text \<open>\<open>Array.from(element.classList).some(c => c.includes('blured'))\<close>.\<close>

definition hasBlurClass :: "string list \<Rightarrow> bool" where
  "hasBlurClass cl = list_ex (\<lambda>c. str_includes c ''blured'') cl"

text \<open>
  \<open>querySelectorAll('[class*="blured"]')\<close> over the candidates \<open>es\<close>: the selector
  matches when the class attribute contains the substring \<open>blured\<close>. The attribute is
  the tokens separated by white space and \<open>blured\<close> has no white space, so it matches
  exactly when some token contains \<open>blured\<close>.
\<close>

definition querySelectorAll_blured :: "page \<Rightarrow> elem list \<Rightarrow> elem list" where
  "querySelectorAll_blured s es =
     filter (\<lambda>e. list_ex (\<lambda>c. str_includes c ''blured'') (classList (elements s e))) es"

text \<open>The strength computed by \<open>processElement\<close> from the class list
  (\<open>classMatch\<close>, \<open>extractedValue\<close> and \<open>blured\<close> of the source).\<close>

definition blured :: "string list \<Rightarrow> decimal number" where
  "blured cl =
     (case find (\<lambda>c. startsWith c ''blured-'') cl of
        None \<Rightarrow> defaultBlurStrength
      | Some classMatch \<Rightarrow>
          (let extractedValue = replace_first classMatch ''blured-'' in
           if \<not> isNaN (Number extractedValue) \<and> trim extractedValue \<noteq> []
           then parseFloat extractedValue
           else defaultBlurStrength))"

definition processElement :: "elem \<Rightarrow> page \<Rightarrow> page" where
  "processElement e s =
     (if e \<in> set (trackedElements s) then s
      else
        let cl = classList_add (classList (elements s e)) ''relative'' in
        s\<lparr>elements := (elements s)
              (e := (elements s e)\<lparr>classList := cl,
                                    blurStrength := Some (toString (blured cl))\<rparr>),
          trackedElements := trackedElements s @ [e]\<rparr>)"

definition removeElement :: "elem \<Rightarrow> page \<Rightarrow> bool \<times> page" where
  "removeElement e s =
     (if e \<in> set (trackedElements s)
      then (True,
            s\<lparr>trackedElements := removeAll e (trackedElements s),
              elements := (elements s)(e := (elements s e)\<lparr>blurStrength := None\<rparr>)\<rparr>)
      else (False, s))"

text \<open>\<open>createGameView\<close> returns \<open>null\<close> when the WebGL context, the program or
  the buffers cannot be created; \<open>webgl\<close> says whether they can.\<close>

definition createGameView :: "bool \<Rightarrow> elem list \<Rightarrow> GameView option" where
  "createGameView webgl glassElements =
     (if webgl
      then Some \<lparr>currentElements = glassElements, currentResolutionScale = resolutionScale\<rparr>
      else None)"

definition updateElements :: "elem list \<Rightarrow> GameView \<Rightarrow> GameView" where
  "updateElements newElements gv = gv\<lparr>currentElements := newElements\<rparr>"

definition sweep :: "elem \<Rightarrow> page \<Rightarrow> page" where
  "sweep e s =
     (if \<not> hasBlurClass (classList (elements s e)) then snd (removeElement e s) else s)"

definition processAllElements :: "bool \<Rightarrow> page \<Rightarrow> page" where
  "processAllElements webgl s =
     (let glassElements = querySelectorAll_blured s (document_elems s);
          s1 = fold sweep (trackedElements s) s
      in if glassElements \<noteq> [] then
           (case gameView s1 of
              None \<Rightarrow>
                (let s2 = fold processElement glassElements (s1\<lparr>canvas := True\<rparr>)
                 in s2\<lparr>gameView := createGameView webgl (trackedElements s2)\<rparr>)
            | Some gv \<Rightarrow>
                (let s2 = fold processElement glassElements s1
                 in s2\<lparr>gameView := Some (updateElements (trackedElements s2) gv)\<rparr>))
         else
           (case gameView s1 of
              None \<Rightarrow> s1
            | Some gv \<Rightarrow> s1\<lparr>gameView := Some (updateElements (trackedElements s1) gv)\<rparr>))"

subsection \<open>The mutation observer\<close>

datatype node = ElementNode elem | OtherNode

record mutation =
  mutation_type :: string
  attributeName :: "string option"
  target :: elem
  addedNodes :: "node list"

text \<open>The body of \<open>mutation.addedNodes.forEach\<close>; the flag is
  \<open>hasNewBlurElements\<close>.\<close>

fun added_node :: "node \<Rightarrow> bool \<times> page \<Rightarrow> bool \<times> page" where
  "added_node OtherNode (h, s) = (h, s)"
| "added_node (ElementNode e) (h, s) =
     (let (h1, s1) = (if hasBlurClass (classList (elements s e))
                      then (True, processElement e s) else (h, s));
          children = querySelectorAll_blured s1 (subtree s1 e)
      in if children \<noteq> [] then (True, fold processElement children s1) else (h1, s1))"

definition on_mutation :: "mutation \<Rightarrow> bool \<times> page \<Rightarrow> bool \<times> page" where
  "on_mutation m hs =
     (let (h1, s1) = fold added_node (addedNodes m) hs in
      if mutation_type m = ''attributes'' \<and> attributeName m = Some ''class'' then
        (if hasBlurClass (classList (elements s1 (target m)))
         then (True, processElement (target m) s1)
         else (h1, s1))
      else (h1, s1))"

definition observer :: "mutation list \<Rightarrow> page \<Rightarrow> page" where
  "observer mutations s =
     (let (hasNewBlurElements, s1) = fold on_mutation mutations (False, s) in
      if hasNewBlurElements then
        (case gameView s1 of
           None \<Rightarrow> s1
         | Some gv \<Rightarrow> s1\<lparr>gameView := Some (updateElements (trackedElements s1) gv)\<rparr>)
      else s1)"

section \<open>The render pipeline\<close>

subsection \<open>Number arithmetic used by \<open>render\<close>\<close>

fun js_times :: "real number \<Rightarrow> real number \<Rightarrow> real number" where
  "js_times NaN _ = NaN"
| "js_times _ NaN = NaN"
| "js_times (Fin a) (Fin b) = Fin (a * b)"
| "js_times (Fin a) PosInfinity =
     (if a = 0 then NaN else if 0 < a then PosInfinity else NegInfinity)"
| "js_times (Fin a) NegInfinity =
     (if a = 0 then NaN else if 0 < a then NegInfinity else PosInfinity)"
| "js_times PosInfinity (Fin b) =
     (if b = 0 then NaN else if 0 < b then PosInfinity else NegInfinity)"
| "js_times NegInfinity (Fin b) =
     (if b = 0 then NaN else if 0 < b then NegInfinity else PosInfinity)"
| "js_times PosInfinity PosInfinity = PosInfinity"
| "js_times PosInfinity NegInfinity = NegInfinity"
| "js_times NegInfinity PosInfinity = NegInfinity"
| "js_times NegInfinity NegInfinity = PosInfinity"

text \<open>\<open>a >= b\<close>: false as soon as one side is NaN.\<close>

fun js_ge :: "real number \<Rightarrow> real number \<Rightarrow> bool" where
  "js_ge NaN _ = False"
| "js_ge _ NaN = False"
| "js_ge (Fin a) (Fin b) = (b \<le> a)"
| "js_ge PosInfinity _ = True"
| "js_ge _ NegInfinity = True"
| "js_ge _ _ = False"

subsection \<open>One element of \<open>currentElements.forEach\<close>\<close>

record DOMRect =
  rect_left :: real
  rect_top :: real
  rect_width :: real
  rect_height :: real

text \<open>What \<open>render\<close> reads from the browser for the frame: the canvas rectangle,
  the size of the drawing buffer, and for each element its rectangle and its computed
  \<open>border-radius\<close>.\<close>

record layout =
  canvasRect :: DOMRect
  gl_canvas_width :: real
  gl_canvas_height :: real
  getBoundingClientRect :: "elem \<Rightarrow> DOMRect"
  computed_borderRadius :: "elem \<Rightarrow> string"

record uniforms =
  shape :: "real \<times> real \<times> real \<times> real"
  borderRadius :: "real number"
  resolution :: "real \<times> real"
  blurStrength_uniform :: "real number"

definition buffer :: int where
  "buffer = 1"

definition scaledLeft :: "DOMRect \<Rightarrow> DOMRect \<Rightarrow> real \<Rightarrow> int" where
  "scaledLeft cr rect scale = \<lfloor>(rect_left rect - rect_left cr) * scale\<rfloor> - buffer"

definition scaledTop :: "DOMRect \<Rightarrow> DOMRect \<Rightarrow> real \<Rightarrow> int" where
  "scaledTop cr rect scale = \<lfloor>(rect_top rect - rect_top cr) * scale\<rfloor> - buffer"

definition scaledWidth :: "DOMRect \<Rightarrow> real \<Rightarrow> int" where
  "scaledWidth rect scale = \<lceil>rect_width rect * scale\<rceil> + buffer * 2"

definition scaledHeight :: "DOMRect \<Rightarrow> real \<Rightarrow> int" where
  "scaledHeight rect scale = \<lceil>rect_height rect * scale\<rceil> + buffer * 2"

definition isCircle :: "string \<Rightarrow> bool" where
  "isCircle br = (str_includes br ''%'' \<and> js_ge (to_real (parseFloat br)) (Fin 50))"

text \<open>\<open>parseFloat(element.dataset.blurStrength || '') || config.defaultBlurStrength\<close>:
  an absent or empty attribute reads as the empty string, a NaN or zero result is
  replaced by the default.\<close>

definition render_blurStrength :: "string option \<Rightarrow> decimal number" where
  "render_blurStrength ds =
     (let v = parseFloat (case ds of None \<Rightarrow> [] | Some x \<Rightarrow> if x = [] then [] else x)
      in if truthy v then v else defaultBlurStrength)"

definition draw :: "layout \<Rightarrow> real \<Rightarrow> page \<Rightarrow> elem \<Rightarrow> uniforms" where
  "draw L scale s e =
     (let rect = getBoundingClientRect L e;
          sl = scaledLeft (canvasRect L) rect scale;
          st = scaledTop (canvasRect L) rect scale;
          sw = scaledWidth rect scale;
          sh = scaledHeight rect scale;
          centerX = real_of_int sl + real_of_int sw / 2;
          centerY = gl_canvas_height L - (real_of_int st + real_of_int sh / 2);
          br = to_real (parseFloat (computed_borderRadius L e));
          circle = isCircle (computed_borderRadius L e);
          strength = render_blurStrength (blurStrength (elements s e))
      in \<lparr>shape = (centerX, centerY,
                   (if circle then real_of_int sw / 2 else real_of_int sw / 2),
                   (if circle then 0 else real_of_int sh / 2)),
          borderRadius = js_times br (Fin scale),
          resolution = (gl_canvas_width L, gl_canvas_height L),
          blurStrength_uniform = to_real strength\<rparr>)"

text \<open>One frame: the uniforms of the draw calls, in the order of
  \<open>currentElements\<close>. (\<open>render\<close> throws when the context or the program is
  missing; a game view exists only when both were created.)\<close>

definition render :: "layout \<Rightarrow> page \<Rightarrow> uniforms list" where
  "render L s =
     (case gameView s of
        None \<Rightarrow> []
      | Some gv \<Rightarrow> map (draw L (currentResolutionScale gv) s) (currentElements gv))"

section \<open>The fragment shader\<close>













section \<open>Runs of the tracking code\<close>

text \<open>
  After \<open>DOMContentLoaded\<close> the tracked set changes only when
  \<open>processAllElements\<close> runs (the initial scan and every call of
  \<open>window.refreshBlurElements\<close>) and when the mutation observer is called with a
  batch of records. Between two such calls the page's own scripts may change the
  elements and the tree in any way; they cannot reach \<open>trackedElements\<close>,
  \<open>canvas\<close> or \<open>gameView\<close>, which are local to the handler.
\<close>

datatype event =
    Refresh bool
  | Mutations "mutation list"
  | DomEdit "elem \<Rightarrow> element" "elem list" "elem \<Rightarrow> elem list"

fun step :: "event \<Rightarrow> page \<Rightarrow> page" where
  "step (Refresh webgl) s = processAllElements webgl s"
| "step (Mutations ms) s = observer ms s"
| "step (DomEdit els doc sub) s = s\<lparr>elements := els, document_elems := doc, subtree := sub\<rparr>"

definition initial_page :: "(elem \<Rightarrow> element) \<Rightarrow> elem list \<Rightarrow> (elem \<Rightarrow> elem list) \<Rightarrow> page" where
  "initial_page els doc sub =
     \<lparr>elements = els, document_elems = doc, subtree = sub,
      trackedElements = [], canvas = False, gameView = None\<rparr>"

text \<open>The element \<open>e\<close> has no class token containing \<open>blured\<close> in any state
  of the run of \<open>evs\<close> from \<open>s\<close>.\<close>

fun never_blured :: "elem \<Rightarrow> event list \<Rightarrow> page \<Rightarrow> bool" where
  "never_blured e [] s = (\<not> hasBlurClass (classList (elements s e)))"
| "never_blured e (ev # evs) s =
     (\<not> hasBlurClass (classList (elements s e)) \<and> never_blured e evs (step ev s))"

section \<open>Notions used to state the properties\<close>

text \<open>The qualifying marker as the specification words it: the class list has the
  token \<open>blured\<close> or a token of the form \<open>blured-<suffix>\<close>.\<close>

definition spec_marker :: "string list \<Rightarrow> bool" where
  "spec_marker cl = list_ex (\<lambda>c. c = ''blured'' \<or> startsWith c ''blured-'') cl"




text \<open>\<open>s'\<close> extends \<open>s\<close>: the tracked list only grew, by elements that have a
  class token containing \<open>blured\<close>, and the elements tracked before are untouched.\<close>

definition extends :: "page \<Rightarrow> page \<Rightarrow> bool" where
  "extends s s' \<longleftrightarrow>
     prefix (trackedElements s) (trackedElements s') \<and>
     (\<forall>x \<in> set (trackedElements s').
        x \<in> set (trackedElements s) \<or> hasBlurClass (classList (elements s x))) \<and>
     (\<forall>x. hasBlurClass (classList (elements s' x)) = hasBlurClass (classList (elements s x))) \<and>
     (\<forall>x \<in> set (trackedElements s). elements s' x = elements s x) \<and>
     subtree s' = subtree s \<and> document_elems s' = document_elems s"

section \<open>Example pages\<close>

text \<open>A document of six elements, before the initial scan. Element 0 has a class
  that merely contains \<open>blured\<close>, element 4 has no class.\<close>

definition plain :: "string list \<Rightarrow> element" where
  "plain cl = \<lparr>classList = cl, blurStrength = None\<rparr>"

definition example_elements :: "elem \<Rightarrow> element" where
  "example_elements =
     (\<lambda>e. plain [])
       (0 := plain [''unblured''],
        2 := plain [''blured-abc''],
        3 := plain [''blured''],
        5 := plain [''blured-0''],
        6 := plain [''card'', ''blured-7.5''])"

definition no_children :: "elem \<Rightarrow> elem list" where
  "no_children e = []"

definition example_page :: page where
  "example_page = initial_page example_elements [0, 2, 3, 4, 5, 6] no_children"

text \<open>The page after the initial scan.\<close>

definition scanned_page :: page where
  "scanned_page = processAllElements True example_page"


text \<open>Or a script removes the class \<open>blured-7.5\<close> from element 6.\<close>

definition stripped_page :: page where
  "stripped_page =
     scanned_page\<lparr>elements := (elements scanned_page)
        (6 := (elements scanned_page 6)\<lparr>classList := [''card'', ''relative'']\<rparr>)\<rparr>"

definition class_changed :: "elem \<Rightarrow> mutation" where
  "class_changed e =
     \<lparr>mutation_type = ''attributes'', attributeName = Some ''class'', target = e,
      addedNodes = []\<rparr>"

text \<open>A run: the initial scan, the observer's batch for class changes the scan
  made, a script that rewrites the class attributes as they were at first, with
  \<open>panel\<close> on element 4, and a refresh.\<close>

definition example_run :: "event list" where
  "example_run =
     [Refresh True,
      Mutations [class_changed 0, class_changed 2],
      DomEdit (example_elements(4 := plain [''panel''])) [0, 2, 3, 4, 5, 6] no_children,
      Refresh True]"



section \<open>Facts about the tracking operations\<close>

subsection \<open>\<open>processElement\<close> and \<open>removeElement\<close>\<close>

lemma hasBlurClass_append: "hasBlurClass (xs @ ys) = (hasBlurClass xs \<or> hasBlurClass ys)"
  by (simp add: hasBlurClass_def list_ex_iff) blast

lemma relative_not_blured: "\<not> str_includes ''relative'' ''blured''"
  by (simp add: startsWith_def)

lemma hasBlurClass_relative: "\<not> hasBlurClass [''relative'']"
  by (simp add: hasBlurClass_def startsWith_def)

lemma hasBlurClass_add_relative:
  "hasBlurClass (classList_add cl ''relative'') = hasBlurClass cl"
  by (simp add: classList_add_def hasBlurClass_append hasBlurClass_relative)

lemma find_append_not:
  "\<not> P y \<Longrightarrow> find P (xs @ [y]) = find P xs"
  by (induction xs) auto

lemma blured_add_relative: "blured (classList_add cl ''relative'') = blured cl"
  by (simp add: blured_def classList_add_def find_append_not startsWith_def)

lemma processElement_tracked:
  "trackedElements (processElement e s) =
     (if e \<in> set (trackedElements s) then trackedElements s else trackedElements s @ [e])"
  by (simp add: processElement_def Let_def)

lemma processElement_noop:
  "e \<in> set (trackedElements s) \<Longrightarrow> processElement e s = s"
  by (simp add: processElement_def)

lemma processElement_elements:
  "elements (processElement e s) x =
     (if x = e \<and> e \<notin> set (trackedElements s)
      then (elements s e)\<lparr>classList := classList_add (classList (elements s e)) ''relative'',
             blurStrength := Some (toString (blured (classList (elements s e))))\<rparr>
      else elements s x)"
  by (simp add: processElement_def Let_def blured_add_relative)

lemma processElement_frame:
  "document_elems (processElement e s) = document_elems s"
  "subtree (processElement e s) = subtree s"
  "canvas (processElement e s) = canvas s"
  "gameView (processElement e s) = gameView s"
  by (simp_all add: processElement_def Let_def)

lemma processElement_hasBlur:
  "hasBlurClass (classList (elements (processElement e s) x)) =
   hasBlurClass (classList (elements s x))"
  by (simp add: processElement_elements hasBlurClass_add_relative)


lemma fold_processElement_tracked_set:
  "set (trackedElements (fold processElement es s)) = set (trackedElements s) \<union> set es"
  by (induction es arbitrary: s) (auto simp: processElement_tracked)

lemma fold_processElement_prefix:
  "prefix (trackedElements s) (trackedElements (fold processElement es s))"
proof (induction es arbitrary: s)
  case Nil show ?case by simp
next
  case (Cons x es)
  have "prefix (trackedElements s) (trackedElements (processElement x s))"
    by (simp add: processElement_tracked)
  then show ?case using Cons[of "processElement x s"] by (auto intro: prefix_order.trans)
qed


lemma fold_processElement_frame:
  "document_elems (fold processElement es s) = document_elems s"
  "subtree (fold processElement es s) = subtree s"
  "canvas (fold processElement es s) = canvas s"
  "gameView (fold processElement es s) = gameView s"
  by (induction es arbitrary: s) (simp_all add: processElement_frame)

lemma fold_processElement_hasBlur:
  "hasBlurClass (classList (elements (fold processElement es s) x)) =
   hasBlurClass (classList (elements s x))"
  by (induction es arbitrary: s) (simp_all add: processElement_hasBlur)


lemma processElement_canvas:
  "processElement e (s\<lparr>canvas := c\<rparr>) = (processElement e s)\<lparr>canvas := c\<rparr>"
  by (simp add: processElement_def Let_def)

lemma fold_processElement_canvas:
  "fold processElement es (s\<lparr>canvas := c\<rparr>) = (fold processElement es s)\<lparr>canvas := c\<rparr>"
  by (induction es arbitrary: s) (simp_all add: processElement_canvas)

lemma sweep_tracked:
  "trackedElements (sweep e s) =
     (if hasBlurClass (classList (elements s e)) then trackedElements s
      else removeAll e (trackedElements s))"
  by (simp add: sweep_def removeElement_def)

lemma sweep_classList:
  "classList (elements (sweep e s) x) = classList (elements s x)"
  by (simp add: sweep_def removeElement_def)


lemma sweep_frame:
  "document_elems (sweep e s) = document_elems s"
  "subtree (sweep e s) = subtree s"
  "canvas (sweep e s) = canvas s"
  "gameView (sweep e s) = gameView s"
  by (simp_all add: sweep_def removeElement_def)

lemma fold_sweep_classList:
  "classList (elements (fold sweep ts s) x) = classList (elements s x)"
  by (induction ts arbitrary: s) (simp_all add: sweep_classList)

lemma fold_sweep_frame:
  "document_elems (fold sweep ts s) = document_elems s"
  "subtree (fold sweep ts s) = subtree s"
  "canvas (fold sweep ts s) = canvas s"
  "gameView (fold sweep ts s) = gameView s"
  by (induction ts arbitrary: s) (simp_all add: sweep_frame)

lemma fold_sweep_tracked:
  "trackedElements (fold sweep ts s) =
     filter (\<lambda>x. x \<notin> set ts \<or> hasBlurClass (classList (elements s x))) (trackedElements s)"
proof (induction ts arbitrary: s)
  case Nil show ?case by simp
next
  case (Cons a ts)
  show ?case
    by (auto simp: Cons sweep_tracked sweep_classList removeAll_filter_not_eq
             intro!: filter_cong)
qed


lemma querySelectorAll_blured_set:
  "set (querySelectorAll_blured s es) = {x \<in> set es. hasBlurClass (classList (elements s x))}"
  by (auto simp: querySelectorAll_blured_def hasBlurClass_def)

text \<open>In every branch of processAllElements the elements and the tracked list are those after the sweep and the processing of the matches.\<close>

lemma processAllElements_tracked:
  "trackedElements (processAllElements webgl s) =
     trackedElements (fold processElement (querySelectorAll_blured s (document_elems s))
                        (fold sweep (trackedElements s) s))"
  by (simp add: processAllElements_def Let_def fold_processElement_canvas split: option.splits)


lemma processAllElements_tracked_set:
  "set (trackedElements (processAllElements webgl s)) =
     {x \<in> set (trackedElements s) \<union> set (document_elems s).
        hasBlurClass (classList (elements s x))}"
  by (auto simp: processAllElements_tracked fold_processElement_tracked_set
        fold_sweep_tracked querySelectorAll_blured_set)

subsection \<open>The observer only extends the tracked list\<close>

lemma extends_refl: "extends s s"
  by (simp add: extends_def)

lemma extends_trans:
  assumes "extends a b" "extends b c"
  shows "extends a c"
proof -
  have p: "prefix (trackedElements a) (trackedElements c)"
    using assms by (auto simp: extends_def intro: prefix_order.trans)
  have sub: "set (trackedElements a) \<subseteq> set (trackedElements b)"
    using assms(1) by (auto simp: extends_def dest: set_mono_prefix)
  show ?thesis
    unfolding extends_def
  proof (intro conjI ballI allI)
    show "prefix (trackedElements a) (trackedElements c)" by (rule p)
  next
    fix x assume "x \<in> set (trackedElements c)"
    then have "x \<in> set (trackedElements b) \<or> hasBlurClass (classList (elements b x))"
      using assms(2) by (simp add: extends_def)
    then show "x \<in> set (trackedElements a) \<or> hasBlurClass (classList (elements a x))"
      using assms(1) by (auto simp: extends_def)
  next
    fix x show "hasBlurClass (classList (elements c x)) = hasBlurClass (classList (elements a x))"
      using assms by (simp add: extends_def)
  next
    fix x assume "x \<in> set (trackedElements a)"
    then show "elements c x = elements a x"
      using assms sub by (auto simp: extends_def)
  next
    show "subtree c = subtree a" using assms by (simp add: extends_def)
  next
    show "document_elems c = document_elems a" using assms by (simp add: extends_def)
  qed
qed

lemma extends_processElement:
  "hasBlurClass (classList (elements s e)) \<or> e \<in> set (trackedElements s)
   \<Longrightarrow> extends s (processElement e s)"
  by (auto simp: extends_def processElement_tracked processElement_elements
        processElement_frame hasBlurClass_add_relative)

lemma extends_fold_processElement:
  "\<forall>x \<in> set es. hasBlurClass (classList (elements s x)) \<or> x \<in> set (trackedElements s)
   \<Longrightarrow> extends s (fold processElement es s)"
proof (induction es arbitrary: s)
  case Nil show ?case by (simp add: extends_refl)
next
  case (Cons a es)
  have 1: "extends s (processElement a s)"
    using Cons.prems by (simp add: extends_processElement)
  have "\<forall>x \<in> set es. hasBlurClass (classList (elements (processElement a s) x))
          \<or> x \<in> set (trackedElements (processElement a s))"
    using Cons.prems by (auto simp: processElement_hasBlur processElement_tracked)
  then have "extends (processElement a s) (fold processElement es (processElement a s))"
    by (rule Cons.IH)
  with 1 show ?case by (auto intro: extends_trans)
qed

lemma extends_querySelectorAll:
  "extends s (fold processElement (querySelectorAll_blured s es) s)"
  by (rule extends_fold_processElement) (simp add: querySelectorAll_blured_set)

lemma extends_added_node: "extends s (snd (added_node n (h, s)))"
proof (cases n)
  case OtherNode
  then show ?thesis by (simp add: extends_refl)
next
  case (ElementNode e)
  define s1 where "s1 = (if hasBlurClass (classList (elements s e)) then processElement e s else s)"
  have 1: "extends s s1"
    by (simp add: s1_def extends_refl extends_processElement)
  have 2: "extends s1 (fold processElement (querySelectorAll_blured s1 (subtree s1 e)) s1)"
    by (rule extends_querySelectorAll)
  have "snd (added_node n (h, s)) = fold processElement (querySelectorAll_blured s1 (subtree s1 e)) s1"
    using ElementNode by (simp add: s1_def Let_def)
  with 1 2 show ?thesis by (auto intro: extends_trans)
qed

lemma extends_fold_added_node:
  "extends s0 (snd hs) \<Longrightarrow> extends s0 (snd (fold added_node ns hs))"
proof (induction ns arbitrary: hs)
  case Nil then show ?case by simp
next
  case (Cons n ns)
  obtain h s where hs: "hs = (h, s)" by (cases hs)
  have "extends s0 (snd (added_node n hs))"
    using Cons.prems extends_added_node[of s n h] by (auto simp: hs intro: extends_trans)
  then show ?case by (simp add: Cons.IH)
qed

lemma extends_on_mutation:
  assumes "extends s0 (snd hs)"
  shows "extends s0 (snd (on_mutation m hs))"
proof -
  obtain h1 s1 where f: "fold added_node (addedNodes m) hs = (h1, s1)"
    by (cases "fold added_node (addedNodes m) hs")
  have 1: "extends s0 s1"
    using extends_fold_added_node[OF assms, of "addedNodes m"] f by simp
  have "extends s1 (snd (on_mutation m hs))"
    by (simp add: on_mutation_def f extends_refl extends_processElement)
  with 1 show ?thesis by (rule extends_trans)
qed

lemma extends_fold_on_mutation:
  "extends s0 (snd hs) \<Longrightarrow> extends s0 (snd (fold on_mutation ms hs))"
  by (induction ms arbitrary: hs) (simp_all add: extends_on_mutation)

lemma extends_gameView: "extends s s' \<Longrightarrow> extends s (s'\<lparr>gameView := g\<rparr>)"
  by (simp add: extends_def)

lemma extends_observer: "extends s (observer ms s)"
proof -
  obtain h1 s1 where f: "fold on_mutation ms (False, s) = (h1, s1)"
    by (cases "fold on_mutation ms (False, s)")
  have "extends s s1"
    using extends_fold_on_mutation[of s "(False, s)" ms] f by (simp add: extends_refl)
  then show ?thesis
    by (simp add: observer_def f extends_gameView split: option.splits)
qed

lemma step_tracked:
  "x \<in> set (trackedElements (step ev s))
   \<Longrightarrow> x \<in> set (trackedElements s) \<or> hasBlurClass (classList (elements s x))"
proof (cases ev)
  case (Refresh w)
  assume "x \<in> set (trackedElements (step ev s))"
  then show ?thesis using Refresh by (auto simp: processAllElements_tracked_set)
next
  case (Mutations ms)
  assume "x \<in> set (trackedElements (step ev s))"
  then show ?thesis using Mutations extends_observer[of s ms] by (auto simp: extends_def)
next
  case (DomEdit els doc sub)
  assume "x \<in> set (trackedElements (step ev s))"
  then show ?thesis using DomEdit by simp
qed

lemma run_never_blured:
  "e \<notin> set (trackedElements s) \<Longrightarrow> never_blured e evs s
   \<Longrightarrow> e \<notin> set (trackedElements (fold step evs s))"
proof (induction evs arbitrary: s)
  case Nil then show ?case by simp
next
  case (Cons ev evs)
  have "e \<notin> set (trackedElements (step ev s))"
    using Cons.prems step_tracked[of e ev s] by auto
  then show ?case using Cons.prems by (simp add: Cons.IH)
qed

lemma never_blured_take: "never_blured e evs s \<Longrightarrow> never_blured e (take n evs) s"
proof (induction evs arbitrary: n s)
  case Nil then show ?case by simp
next
  case (Cons ev evs)
  then show ?case by (cases n) auto
qed

subsection \<open>Further facts about the scan\<close>






lemma count_list_distinct:
  "distinct xs \<Longrightarrow> count_list xs x = (if x \<in> set xs then 1 else 0)"
  by (induction xs) auto

lemma processElement_distinct:
  "distinct (trackedElements s) \<Longrightarrow> distinct (trackedElements (processElement e s))"
  by (simp add: processElement_tracked)

lemma processElement_member: "e \<in> set (trackedElements (processElement e s))"
  by (simp add: processElement_tracked)

subsection \<open>The marker of the specification\<close>

text \<open>A class list with the token \<open>blured\<close> or a token \<open>blured-<suffix>\<close>
  passes the test of the code.\<close>

lemma startsWith_includes: "startsWith c p \<Longrightarrow> str_includes c p"
  by (cases c) (auto simp: startsWith_def)

lemma startsWith_blured: "startsWith c ''blured-'' \<Longrightarrow> startsWith c ''blured''"
proof -
  assume "startsWith c ''blured-''"
  then have "take 7 c = ''blured-''" by (simp add: startsWith_def eval_nat_numeral)
  then have "take 6 (take 7 c) = take 6 ''blured-''" by simp
  then have "take 6 c = ''blured''" by (simp add: eval_nat_numeral)
  then show ?thesis by (simp add: startsWith_def eval_nat_numeral)
qed

lemma spec_marker_hasBlurClass: "spec_marker cl \<Longrightarrow> hasBlurClass cl"
proof -
  assume "spec_marker cl"
  then obtain c where c: "c \<in> set cl" "c = ''blured'' \<or> startsWith c ''blured-''"
    by (auto simp: spec_marker_def list_ex_iff)
  have "str_includes c ''blured''"
  proof (cases "c = ''blured''")
    case True
    then show ?thesis by (simp add: startsWith_def)
  next
    case False
    then have "startsWith c ''blured-''" using c(2) by simp
    then have "startsWith c ''blured''" by (rule startsWith_blured)
    then show ?thesis by (rule startsWith_includes)
  qed
  then show ?thesis using c(1) by (auto simp: hasBlurClass_def list_ex_iff)
qed

subsection \<open>Evaluation of the examples\<close>



subsection \<open>The blur kernel\<close>













subsection \<open>Geometry\<close>


section \<open>The properties\<close>

subsection \<open>C1: no false positives\<close>

text \<open>
  C1 as stated takes the marker to be the token \<open>blured\<close> or a token
  \<open>blured-<suffix>\<close>, and fails: element 0 of the example page has the single
  class \<open>unblured\<close>, which is neither, before and after the initial scan, and the
  initial scan tracks it. The code tests \<open>c.includes('blured')\<close> and selects with
  \<open>[class*="blured"]\<close>.
\<close>

theorem C1_counterexample:
  "\<not> spec_marker (classList (elements example_page 0))
   \<and> \<not> spec_marker (classList (elements (processAllElements True example_page) 0))
   \<and> 0 \<in> set (trackedElements (processAllElements True example_page))"
  by code_simp

text \<open>
  C1 (amended). For every element whose class list never has a token containing the
  substring \<open>blured\<close> (the test the code applies), the tracked set never contains
  it: in a run that starts with an empty tracked set and consists of scans
  (\<open>processAllElements\<close>: the initial one and every refresh), observer callbacks and
  arbitrary edits of the document by the page, no state reached has the element in
  \<open>trackedElements\<close>.
\<close>

theorem C1_no_false_positives:
  "never_blured e evs (initial_page els doc sub)
   \<Longrightarrow> e \<notin> set (trackedElements (fold step (take n evs) (initial_page els doc sub)))"
  by (rule run_never_blured) (simp_all add: initial_page_def never_blured_take)

theorem C1_witness:
  "never_blured 4 example_run (initial_page example_elements [0, 2, 3, 4, 5, 6] no_children)
   \<and> 4 \<notin> set (trackedElements (fold step (take 4 example_run)
                  (initial_page example_elements [0, 2, 3, 4, 5, 6] no_children)))"
proof -
  have h: "never_blured 4 example_run (initial_page example_elements [0, 2, 3, 4, 5, 6] no_children)"
    by code_simp
  from C1_no_false_positives[OF h] h show ?thesis by blast
qed

subsection \<open>C2: the recorded strength\<close>




subsection \<open>C3: kernel normalization\<close>



subsection \<open>C4: the scaled and padded box\<close>


subsection \<open>C5: the shape discriminator\<close>



subsection \<open>C6: adding twice\<close>

text \<open>
  C6. \<open>processElement\<close> is idempotent. With a tracked set without repetition
  (a JavaScript \<open>Set\<close>), calling it twice on an element leaves exactly one entry for
  the element; the second call changes nothing, also when the class list of the
  element was replaced by any other class list \<open>cl'\<close> between the two calls: the
  tracked list and the stored strength are those after the first call, and when the
  first call started tracking the element that strength is the one computed from the
  classes it had then.
\<close>

theorem C6_add_idempotent:
  assumes "distinct (trackedElements s)"
  shows "processElement e (processElement e s) = processElement e s
     \<and> count_list (trackedElements (processElement e (processElement e s))) e = 1
     \<and> processElement e
          ((processElement e s)\<lparr>elements := (elements (processElement e s))
             (e := (elements (processElement e s) e)\<lparr>classList := cl'\<rparr>)\<rparr>)
        = (processElement e s)\<lparr>elements := (elements (processElement e s))
             (e := (elements (processElement e s) e)\<lparr>classList := cl'\<rparr>)\<rparr>
     \<and> trackedElements (processElement e
          ((processElement e s)\<lparr>elements := (elements (processElement e s))
             (e := (elements (processElement e s) e)\<lparr>classList := cl'\<rparr>)\<rparr>))
        = trackedElements (processElement e s)
     \<and> blurStrength (elements (processElement e
          ((processElement e s)\<lparr>elements := (elements (processElement e s))
             (e := (elements (processElement e s) e)\<lparr>classList := cl'\<rparr>)\<rparr>)) e)
        = blurStrength (elements (processElement e s) e)
     \<and> (e \<notin> set (trackedElements s) \<longrightarrow>
          blurStrength (elements (processElement e s) e)
            = Some (toString (blured (classList (elements s e)))))"
proof -
  let ?s1 = "processElement e s"
  let ?s1c = "?s1\<lparr>elements := (elements ?s1)(e := (elements ?s1 e)\<lparr>classList := cl'\<rparr>)\<rparr>"
  have m: "e \<in> set (trackedElements ?s1)" by (rule processElement_member)
  have 1: "processElement e ?s1 = ?s1" using m by (rule processElement_noop)
  have "distinct (trackedElements ?s1)" using assms by (rule processElement_distinct)
  then have 2: "count_list (trackedElements ?s1) e = 1" using m by (simp add: count_list_distinct)
  have "e \<in> set (trackedElements ?s1c)" using m by simp
  then have 3: "processElement e ?s1c = ?s1c" by (rule processElement_noop)
  have 4: "trackedElements ?s1c = trackedElements ?s1" by simp
  have 5: "blurStrength (elements ?s1c e) = blurStrength (elements ?s1 e)" by simp
  have 6: "e \<notin> set (trackedElements s) \<longrightarrow>
          blurStrength (elements ?s1 e) = Some (toString (blured (classList (elements s e))))"
    by (simp add: processElement_elements)
  show ?thesis
    unfolding 3 1 using 1 2 4 5 6 by (intro conjI) simp_all
qed

theorem C6_witness:
  "distinct (trackedElements example_page)
   \<and> blurStrength (elements (processElement 6 example_page) 6) = Some ''7.5''
   \<and> trackedElements (processElement 6 example_page) = [6]
   \<and> trackedElements (processElement 6
        ((processElement 6 example_page)\<lparr>elements := (elements (processElement 6 example_page))
           (6 := (elements (processElement 6 example_page) 6)\<lparr>classList := [''blured-3'']\<rparr>)\<rparr>))
      = [6]
   \<and> blurStrength (elements (processElement 6
        ((processElement 6 example_page)\<lparr>elements := (elements (processElement 6 example_page))
           (6 := (elements (processElement 6 example_page) 6)\<lparr>classList := [''blured-3'']\<rparr>)\<rparr>)) 6)
      = Some ''7.5''"
proof -
  have h: "distinct (trackedElements example_page)"
    by (simp add: example_page_def initial_page_def)
  have a: "blurStrength (elements (processElement 6 example_page) 6) = Some ''7.5''"
    by code_simp
  have b: "trackedElements (processElement 6 example_page) = [6]"
    by code_simp
  note T = C6_add_idempotent[OF h, where e = 6 and cl' = "[''blured-3'']"]
  from T have "trackedElements (processElement 6
        ((processElement 6 example_page)\<lparr>elements := (elements (processElement 6 example_page))
           (6 := (elements (processElement 6 example_page) 6)\<lparr>classList := [''blured-3'']\<rparr>)\<rparr>))
      = trackedElements (processElement 6 example_page)" by blast
  moreover from T have "blurStrength (elements (processElement 6
        ((processElement 6 example_page)\<lparr>elements := (elements (processElement 6 example_page))
           (6 := (elements (processElement 6 example_page) 6)\<lparr>classList := [''blured-3'']\<rparr>)\<rparr>)) 6)
      = blurStrength (elements (processElement 6 example_page) 6)" by blast
  ultimately show ?thesis using h a b by simp
qed

subsection \<open>C7: removal\<close>



subsection \<open>C8: the observer only adds\<close>

text \<open>
  C8. For every batch of mutation records the tracked set after the observer callback
  extends the set before it: the old list is a prefix of the new one, no element is
  removed, and the elements tracked before keep their classes and their stored
  strength, also when the batch has a class mutation for an element that lost the
  marker. Of the events of a run only a scan (\<open>processAllElements\<close>) can make a
  tracked element untracked.
\<close>

theorem C8_observer_only_adds:
  "prefix (trackedElements s) (trackedElements (observer ms s))
   \<and> set (trackedElements s) \<subseteq> set (trackedElements (observer ms s))
   \<and> (\<forall>x \<in> set (trackedElements s). elements (observer ms s) x = elements s x)
   \<and> (x \<in> set (trackedElements s) \<and> x \<notin> set (trackedElements (step ev s))
        \<longrightarrow> (\<exists>webgl. ev = Refresh webgl))"
proof -
  have e: "extends s (observer ms s)" by (rule extends_observer)
  then have 1: "prefix (trackedElements s) (trackedElements (observer ms s))"
    by (simp add: extends_def)
  then have 2: "set (trackedElements s) \<subseteq> set (trackedElements (observer ms s))"
    by (rule set_mono_prefix)
  have 3: "\<forall>x \<in> set (trackedElements s). elements (observer ms s) x = elements s x"
    using e by (simp add: extends_def)
  have 4: "x \<in> set (trackedElements s) \<and> x \<notin> set (trackedElements (step ev s))
        \<longrightarrow> (\<exists>webgl. ev = Refresh webgl)"
  proof (cases ev)
    case (Refresh w) then show ?thesis by simp
  next
    case (Mutations ms')
    have "set (trackedElements s) \<subseteq> set (trackedElements (observer ms' s))"
      using extends_observer[of s ms'] by (auto simp: extends_def dest: set_mono_prefix)
    then show ?thesis using Mutations by auto
  next
    case (DomEdit els doc sub) then show ?thesis by simp
  qed
  show ?thesis using 1 2 3 4 by blast
qed

theorem C8_witness:
  "6 \<in> set (trackedElements stripped_page)
   \<and> \<not> hasBlurClass (classList (elements stripped_page 6))
   \<and> trackedElements stripped_page = [0, 2, 3, 5, 6]
   \<and> 6 \<in> set (trackedElements (observer [class_changed 6] stripped_page))
   \<and> blurStrength (elements (observer [class_changed 6] stripped_page) 6) = Some ''7.5''"
proof -
  have b: "6 \<in> set (trackedElements stripped_page)" by code_simp
  have c: "\<not> hasBlurClass (classList (elements stripped_page 6))" by code_simp
  have d: "blurStrength (elements stripped_page 6) = Some ''7.5''" by code_simp
  have t: "trackedElements stripped_page = [0, 2, 3, 5, 6]" by code_simp
  note T = C8_observer_only_adds[of stripped_page "[class_changed 6]"]
  from T b have "6 \<in> set (trackedElements (observer [class_changed 6] stripped_page))" by blast
  moreover from T b have "elements (observer [class_changed 6] stripped_page) 6 = elements stripped_page 6"
    by blast
  ultimately show ?thesis using b c d t by simp
qed

subsection \<open>C9: the class \<open>relative\<close>\<close>

text \<open>
  C9. When \<open>processElement\<close> starts tracking an element it stores
  \<open>dataset.blurStrength\<close>, appends the element to the tracked set and also adds the
  class token \<open>relative\<close> to the element's class list; nothing else of the element,
  no other element and nothing else of the page is modified.
\<close>

theorem C9_adds_relative:
  assumes "e \<notin> set (trackedElements s)"
  shows "processElement e s =
       s\<lparr>elements := (elements s)
            (e := (elements s e)
               \<lparr>classList := classList_add (classList (elements s e)) ''relative'',
                blurStrength := Some (toString (blured (classList (elements s e))))\<rparr>),
         trackedElements := trackedElements s @ [e]\<rparr>
     \<and> set (classList (elements (processElement e s) e))
         = insert ''relative'' (set (classList (elements s e)))
     \<and> (\<forall>x. x \<noteq> e \<longrightarrow> elements (processElement e s) x = elements s x)"
proof -
  have 1: "processElement e s =
       s\<lparr>elements := (elements s)
            (e := (elements s e)
               \<lparr>classList := classList_add (classList (elements s e)) ''relative'',
                blurStrength := Some (toString (blured (classList (elements s e))))\<rparr>),
         trackedElements := trackedElements s @ [e]\<rparr>"
    using assms by (simp add: processElement_def Let_def blured_add_relative)
  have 2: "set (classList (elements (processElement e s) e))
         = insert ''relative'' (set (classList (elements s e)))"
    using assms by (auto simp: processElement_elements classList_add_def)
  have 3: "\<forall>x. x \<noteq> e \<longrightarrow> elements (processElement e s) x = elements s x"
    by (simp add: processElement_elements)
  show ?thesis using 1 2 3 by blast
qed

theorem C9_witness:
  "3 \<notin> set (trackedElements example_page)
   \<and> classList (elements example_page 3) = [''blured'']
   \<and> classList (elements (processElement 3 example_page) 3) = [''blured'', ''relative'']
   \<and> blurStrength (elements (processElement 3 example_page) 3) = Some ''1''
   \<and> trackedElements (processElement 3 example_page) = [3]"
proof -
  have h: "3 \<notin> set (trackedElements example_page)"
    by (simp add: example_page_def initial_page_def)
  have c: "classList (elements example_page 3) = [''blured'']" by code_simp
  have t: "trackedElements example_page = []" by (simp add: example_page_def initial_page_def)
  have v: "toString (blured [''blured'']) = ''1''" by code_simp
  from C9_adds_relative[OF h]
  have "processElement 3 example_page =
       example_page\<lparr>elements := (elements example_page)
            (3 := (elements example_page 3)
               \<lparr>classList := classList_add (classList (elements example_page 3)) ''relative'',
                blurStrength := Some (toString (blured (classList (elements example_page 3))))\<rparr>),
         trackedElements := trackedElements example_page @ [3]\<rparr>" by blast
  then show ?thesis using h by (simp add: c t v classList_add_def)
qed

subsection \<open>C10: the strength read back by \<open>render\<close>\<close>



end
